theory Spec2Isabelle
  imports Main "HOL-Library.Word"
begin

section \<open>C strings and character arrays\<close>

text \<open>
  A \<^verbatim>\<open>const char *\<close> is modelled as the list of bytes stored from the address on. The
  string functions of the C library stop at the first NUL byte; here the end of the list
  stops them as well, so a list with no NUL byte stands for the C string of that text.
  Characters compare as \<^verbatim>\<open>unsigned char\<close>, as \<^verbatim>\<open>strcmp\<close> and \<^verbatim>\<open>strncmp\<close> do.
\<close>

definition NUL :: char where
  "NUL = CHR 0x00"

definition uc_head :: "string \<Rightarrow> nat" where
  "uc_head s = (case s of [] \<Rightarrow> 0 | c # _ \<Rightarrow> of_char c)"

text \<open>The text of the C string held in a buffer: the bytes before the first NUL.\<close>

definition cstr :: "string \<Rightarrow> string" where
  "cstr buf = takeWhile (\<lambda>c. c \<noteq> NUL) buf"

definition strlen_c :: "string \<Rightarrow> nat" where
  "strlen_c s = length (cstr s)"

text \<open>
  \<^verbatim>\<open>strncmp(s1, s2, n)\<close>: at most \<open>n\<close> characters are compared, and the comparison stops
  after a NUL that both strings share. The result is the difference of the first
  differing pair; only its sign is fixed by the C standard.
\<close>

fun strncmp_c :: "string \<Rightarrow> string \<Rightarrow> nat \<Rightarrow> int" where
  "strncmp_c s1 s2 0 = 0"
| "strncmp_c s1 s2 (Suc n) =
     (if uc_head s1 \<noteq> uc_head s2 then int (uc_head s1) - int (uc_head s2)
      else if uc_head s1 = 0 then 0
      else strncmp_c (tl s1) (tl s2) n)"

fun strcmp_c :: "string \<Rightarrow> string \<Rightarrow> int" where
  "strcmp_c [] s2 = - int (uc_head s2)"
| "strcmp_c (c # cs) s2 =
     (if of_char c \<noteq> uc_head s2 then int (of_char c) - int (uc_head s2)
      else if c = NUL then 0
      else strcmp_c cs (tl s2))"

text \<open>
  \<^verbatim>\<open>strstr(haystack, needle)\<close>: the offset of the first occurrence of the needle in the
  haystack, \<open>None\<close> for the NULL result.
\<close>

fun starts_with :: "string \<Rightarrow> string \<Rightarrow> bool" where
  "starts_with [] hay = True"
| "starts_with (c # cs) [] = False"
| "starts_with (c # cs) (x # xs) = (x \<noteq> NUL \<and> c = x \<and> starts_with cs xs)"

fun strstr_c :: "string \<Rightarrow> string \<Rightarrow> nat option" where
  "strstr_c [] needle = (if needle = [] then Some 0 else None)"
| "strstr_c (x # xs) needle =
     (if starts_with needle (x # xs) then Some 0
      else if x = NUL then None
      else map_option Suc (strstr_c xs needle))"

text \<open>
  Memory errors. C leaves a copy past the end of the destination array, and a read past
  the end of the source, undefined; the model returns them as values.
\<close>

datatype error = DstOverflow | SrcOverread

text \<open>
  A local \<^verbatim>\<open>char a[n]\<close> is not initialised: it starts with whatever the stack holds,
  given by \<open>junk\<close> (padded when shorter than the array).
\<close>

definition char_array :: "nat \<Rightarrow> string \<Rightarrow> string" where
  "char_array n junk = take n junk @ replicate (n - length junk) NUL"

definition memcpy_c :: "string \<Rightarrow> string \<Rightarrow> nat \<Rightarrow> error + string" where
  "memcpy_c dst src n =
     (if length dst < n then Inl DstOverflow
      else if length src < n then Inl SrcOverread
      else Inr (take n src @ drop n dst))"

definition store_c :: "string \<Rightarrow> int \<Rightarrow> char \<Rightarrow> error + string" where
  "store_c buf i c =
     (if 0 \<le> i \<and> i < int (length buf) then Inr (buf[nat i := c]) else Inl DstOverflow)"

section \<open>mqtt.c: processar_mensagem_mqtt\<close>

text \<open>
  \<^verbatim>\<open>int copy_len = len < (sizeof(buf) - 1) ? len : (sizeof(buf) - 1);\<close>
  \<open>len\<close> is an \<^verbatim>\<open>int\<close> and \<^verbatim>\<open>sizeof\<close> a \<^verbatim>\<open>size_t\<close>, both 32 bits wide on the ESP32, so the
  comparison is the unsigned one: a negative \<open>len\<close> counts as a large value.
\<close>

definition copy_len_c :: "32 word \<Rightarrow> nat \<Rightarrow> 32 word" where
  "copy_len_c len sz = (if len < of_nat (sz - 1) then len else of_nat (sz - 1))"

definition TOPIC_STR_SIZE :: nat where
  "TOPIC_STR_SIZE = 128"

definition DATA_STR_SIZE :: nat where
  "DATA_STR_SIZE = 256"

text \<open>
  The numeric conversions of the C library are parameters. Floating point is not
  modelled: the type \<open>'f\<close> stands for the values of a \<^verbatim>\<open>float\<close>, \<open>atof\<close> gives the value
  that \<^verbatim>\<open>float temperatura = atof(data_str)\<close> stores, and \<open>float_gt_35\<close> is the test
  \<^verbatim>\<open>temperatura > 35.0\<close> on such a value.
\<close>

record 'f libc =
  atoi :: "string \<Rightarrow> int"
  atof :: "string \<Rightarrow> 'f"
  float_gt_35 :: "'f \<Rightarrow> bool"

datatype log_level = LOGE | LOGW | LOGI | LOGD

text \<open>
  The lines written to the log, with the values that fill their formats: the valve
  number printed with \<^verbatim>\<open>%d\<close>, the temperature printed with \<^verbatim>\<open>%.2f\<close>.
\<close>

datatype 'f log_msg =
    Processando string string
  | AcionandoBomba
  | DesligandoBomba
  | ComandoDesconhecidoBomba string
  | ComandoValvula int string
  | TemperaturaRecebida 'f
  | TemperaturaAlta
  | TopicoNaoTratado string

text \<open>The chain of branches on the topic, lines 248 to 313 of mqtt.c.\<close>

definition processar_topico ::
  "'f libc \<Rightarrow> string \<Rightarrow> string \<Rightarrow> (log_level \<times> 'f log_msg) list" where
  "processar_topico lib topic_str data_str =
     (if strncmp_c topic_str ''demo/comandos/bomba'' 24 = 0 then
        (if strcmp_c data_str ''LIGAR'' = 0 then [(LOGI, AcionandoBomba)]
         else if strcmp_c data_str ''DESLIGAR'' = 0 then [(LOGI, DesligandoBomba)]
         else [(LOGW, ComandoDesconhecidoBomba (cstr data_str))])
      else if strncmp_c topic_str ''demo/comandos/valvula/'' 27 = 0 then
        [(LOGI, ComandoValvula (atoi lib (drop 27 topic_str)) (cstr data_str))]
      else if strstr_c topic_str ''temperatura'' \<noteq> None then
        (LOGI, TemperaturaRecebida (atof lib data_str)) #
        (if float_gt_35 lib (atof lib data_str) then [(LOGW, TemperaturaAlta)] else [])
      else [(LOGD, TopicoNaoTratado (cstr topic_str))])"

record 'f proc_result =
  topic_str :: string
  data_str :: string
  logged :: "(log_level \<times> 'f log_msg) list"

text \<open>
  The bounded copy of one argument into its array: \<^verbatim>\<open>memcpy\<close> of \<open>copy_len\<close> bytes, then
  the terminator at index \<open>copy_len\<close>.
\<close>

definition copy_terminated :: "nat \<Rightarrow> string \<Rightarrow> string \<Rightarrow> 32 word \<Rightarrow> error + string" where
  "copy_terminated sz junk src len =
     (let copy_len = copy_len_c len sz in
      case memcpy_c (char_array sz junk) src (unat copy_len) of
        Inl e \<Rightarrow> Inl e
      | Inr buf \<Rightarrow> store_c buf (sint copy_len) NUL)"

definition processar_mensagem_mqtt ::
  "'f libc \<Rightarrow> string \<Rightarrow> string \<Rightarrow> string \<Rightarrow> 32 word \<Rightarrow> string \<Rightarrow> 32 word \<Rightarrow>
   error + 'f proc_result" where
  "processar_mensagem_mqtt lib junk_t junk_d topic topic_len data data_len =
     (case copy_terminated TOPIC_STR_SIZE junk_t topic topic_len of
        Inl e \<Rightarrow> Inl e
      | Inr t \<Rightarrow>
         (case copy_terminated DATA_STR_SIZE junk_d data data_len of
            Inl e \<Rightarrow> Inl e
          | Inr d \<Rightarrow>
              Inr \<lparr>topic_str = t, data_str = d,
                   logged = (LOGI, Processando (cstr t) (cstr d)) # processar_topico lib t d\<rparr>))"

text \<open>
  A C library used where a closed term is needed: its floats are counted in hundredths,
  and \<open>atof\<close> answers 21.50 whatever the text.
\<close>

definition libc0 :: "int libc" where
  "libc0 = \<lparr>atoi = (\<lambda>s. 0), atof = (\<lambda>s. 2150), float_gt_35 = (\<lambda>x. 3500 < x)\<rparr>"

section \<open>mqtt_system.h: statistics and session state\<close>

record mqtt_statistics_t =
  total_publicadas :: "32 word"
  total_recebidas :: "32 word"
  falhas_publicacao :: "32 word"
  desconexoes :: "32 word"
  tempo_desconectado_ms :: "32 word"
  ultima_mensagem_ts :: "32 word"

text \<open>
  Modelled from the spec: \<^verbatim>\<open>mqtt_reset_statistics\<close> is declared in mqtt_system.h and its
  body is not among the source files. The specification (sections 3 and 4.5) and the
  header's comment agree: every counter is zeroed except the number of disconnections
  and the time spent disconnected.
\<close>

definition mqtt_reset_statistics :: "mqtt_statistics_t \<Rightarrow> mqtt_statistics_t" where
  "mqtt_reset_statistics st =
     st\<lparr>total_publicadas := 0, total_recebidas := 0,
        falhas_publicacao := 0, ultima_mensagem_ts := 0\<rparr>"

text \<open>
  Modelled from the spec: the session state and \<^verbatim>\<open>mqtt_system_is_connected\<close>, which
  mqtt_system.h declares and no source file defines. Section 4.1 of the specification
  gives the states, and \<open>is_connected\<close> as the test that the state is \<open>Connected\<close>.
  The external client moves the session between the states; no function of mqtt.c reads
  or writes it.
\<close>

datatype session_state = Idle | Connecting | Connected | Disconnected | Faulted

text \<open>
  The state of the program: the global \<^verbatim>\<open>mqtt_client\<close> of mqtt.c (\<open>None\<close> for NULL), the
  session state and the statistics.
\<close>

record mqtt_system =
  mqtt_client :: "nat option"
  session :: session_state
  statistics :: mqtt_statistics_t

definition mqtt_system_is_connected :: "mqtt_system \<Rightarrow> bool" where
  "mqtt_system_is_connected s = (session s = Connected)"

section \<open>The external MQTT client\<close>

record mqtt_cfg =
  broker_uri :: string
  client_id :: string
  last_will_topic :: string
  last_will_msg :: string
  last_will_msg_len :: int
  last_will_qos :: int
  last_will_retain :: bool
  keepalive :: int
  disable_auto_reconnect :: bool

record publish_call =
  pc_client :: nat
  pc_topic :: string
  pc_data :: string
  pc_len :: int
  pc_qos :: int
  pc_retain :: int

datatype client_call =
    ClientInit mqtt_cfg
  | ClientRegisterEvent nat
  | ClientStart nat
  | ClientSubscribe nat string int
  | ClientPublish publish_call

text \<open>
  What the client library answers: the handle of \<^verbatim>\<open>esp_mqtt_client_init\<close> (\<open>None\<close> for
  NULL), the \<^verbatim>\<open>esp_err_t\<close> of \<^verbatim>\<open>esp_mqtt_client_start\<close>, and the message identifiers of
  \<^verbatim>\<open>esp_mqtt_client_subscribe\<close> and \<^verbatim>\<open>esp_mqtt_client_publish\<close>.
\<close>

record esp_mqtt_client =
  client_init :: "mqtt_cfg \<Rightarrow> nat option"
  client_start :: "nat \<Rightarrow> int"
  client_subscribe :: "nat \<Rightarrow> string \<Rightarrow> int \<Rightarrow> int"
  client_publish :: "publish_call \<Rightarrow> int"

definition ESP_OK :: int where
  "ESP_OK = 0"

section \<open>mqtt.c: mqtt_event_handler\<close>

datatype mqtt_event =
    MQTT_EVENT_CONNECTED
  | MQTT_EVENT_DISCONNECTED
  | MQTT_EVENT_SUBSCRIBED int
  | MQTT_EVENT_UNSUBSCRIBED int
  | MQTT_EVENT_PUBLISHED int
  | MQTT_EVENT_DATA string "32 word" string "32 word"
  | MQTT_EVENT_ERROR
  | MQTT_EVENT_OTHER int

text \<open>
  The handler subscribes to two topic filters when the client connects and hands every
  received message to \<open>processar_mensagem_mqtt\<close>; the other events are only logged. The
  result is the list of calls to the client and what the processing of a message gave.
\<close>

fun mqtt_event_handler ::
  "'f libc \<Rightarrow> string \<Rightarrow> string \<Rightarrow> nat \<Rightarrow> mqtt_event \<Rightarrow>
   client_call list \<times> (error + 'f proc_result) option" where
  "mqtt_event_handler lib junk_t junk_d client MQTT_EVENT_CONNECTED =
     ([ClientSubscribe client ''jardim/+/temperatura'' 0,
       ClientSubscribe client ''demo/comandos/#'' 1], None)"
| "mqtt_event_handler lib junk_t junk_d client (MQTT_EVENT_DATA topic topic_len data data_len) =
     ([], Some (processar_mensagem_mqtt lib junk_t junk_d topic topic_len data data_len))"
| "mqtt_event_handler lib junk_t junk_d client ev = ([], None)"

section \<open>mqtt.c: mqtt_app_start\<close>

definition mqtt_cfg0 :: mqtt_cfg where
  "mqtt_cfg0 =
     \<lparr>broker_uri = ''mqtt://192.168.1.100:1883'',
      client_id = ''esp32_jardim_central'',
      last_will_topic = ''demo/status/central'',
      last_will_msg = ''OFFLINE'',
      last_will_msg_len = 7,
      last_will_qos = 1,
      last_will_retain = True,
      keepalive = 60,
      disable_auto_reconnect = False\<rparr>"

text \<open>
  The result is the returned handle (\<open>None\<close> for NULL), the calls made to the client
  and the new state. The global \<^verbatim>\<open>mqtt_client\<close> is assigned before it is tested. The
  lines written to the log are left out.
\<close>

definition mqtt_app_start ::
  "esp_mqtt_client \<Rightarrow> mqtt_system \<Rightarrow> nat option \<times> client_call list \<times> mqtt_system" where
  "mqtt_app_start tr s =
     (let s1 = s\<lparr>mqtt_client := client_init tr mqtt_cfg0\<rparr> in
      case mqtt_client s1 of
        None \<Rightarrow> (None, [ClientInit mqtt_cfg0], s1)
      | Some c \<Rightarrow>
          (let calls = [ClientInit mqtt_cfg0, ClientRegisterEvent c, ClientStart c] in
           if client_start tr c \<noteq> ESP_OK then (None, calls, s1)
           else (Some c, calls, s1)))"

section \<open>mqtt.c: mqtt_publish_data\<close>

text \<open>\<^verbatim>\<open>len = strlen(data)\<close> converts a \<^verbatim>\<open>size_t\<close> to an \<^verbatim>\<open>int\<close> of 32 bits.\<close>

definition int_of_size_t :: "nat \<Rightarrow> int" where
  "int_of_size_t n = sint (word_of_nat n :: 32 word)"

text \<open>
  The result is the returned value, the calls made to the client and the state after the
  call. The function assigns no global, so the state comes back as it was. The lines it
  writes to the log are left out.
\<close>

definition mqtt_publish_data ::
  "esp_mqtt_client \<Rightarrow> mqtt_system \<Rightarrow> string \<Rightarrow> string \<Rightarrow> int \<Rightarrow> int \<Rightarrow> bool \<Rightarrow>
   int \<times> client_call list \<times> mqtt_system" where
  "mqtt_publish_data tr s topic data len qos retain =
     (case mqtt_client s of
        None \<Rightarrow> (- 1, [], s)
      | Some c \<Rightarrow>
          (let len1 = (if len = 0 then int_of_size_t (strlen_c data) else len);
               call = \<lparr>pc_client = c, pc_topic = topic, pc_data = data, pc_len = len1,
                       pc_qos = qos, pc_retain = (if retain then 1 else 0)\<rparr>;
               msg_id = client_publish tr call
           in if msg_id < 0 then (- 1, [ClientPublish call], s)
              else (msg_id, [ClientPublish call], s)))"

section \<open>The periodic tasks\<close>

text \<open>A call of the publish operation, as a task makes it.\<close>

record publish_req =
  rq_topic :: string
  rq_data :: string
  rq_len :: int
  rq_qos :: int
  rq_retain :: bool

text \<open>Decimal text, as \<^verbatim>\<open>%lu\<close> and \<^verbatim>\<open>%d\<close> print it.\<close>

function dec_nat :: "nat \<Rightarrow> string" where
  "dec_nat n =
     (if n < 10 then [char_of (48 + n)]
      else dec_nat (n div 10) @ [char_of (48 + n mod 10)])"
  by pat_completeness auto
termination
  by (relation "measure id") auto

definition dec_int :: "int \<Rightarrow> string" where
  "dec_int i = (if i < 0 then CHR ''-'' # dec_nat (nat (- i)) else dec_nat (nat i))"

text \<open>\<^verbatim>\<open>snprintf(buf, n, ...)\<close> keeps at most \<open>n - 1\<close> characters of the text.\<close>

definition snprintf_c :: "nat \<Rightarrow> string \<Rightarrow> string" where
  "snprintf_c n txt = take (n - 1) txt"

subsection \<open>custom_publish_task.c\<close>

text \<open>
  One pass of the loop of \<open>custom_publish_task\<close>, after the delay. \<open>topic\<close> is
  \<^verbatim>\<open>CUSTOM_PUBLISH_TOPIC\<close>, defined in a header that is not among the source files;
  \<open>connected\<close> is what \<^verbatim>\<open>mqtt_system_is_connected()\<close> returns in this pass. The result is
  the new \<^verbatim>\<open>publish_count\<close> and the calls of the publish operation; the lines written
  to the log are left out.
\<close>

definition custom_publish_cycle :: "string \<Rightarrow> bool \<Rightarrow> 32 word \<Rightarrow> 32 word \<times> publish_req list" where
  \<open>custom_publish_cycle topic connected publish_count =
     (if connected then
        (let publish_count1 = publish_count + 1;
             custom_msg = snprintf_c 128
               (''{"publish_count":'' @ dec_nat (unat publish_count1) @
                '',"status":"operational"}'')
         in (publish_count1,
             [\<lparr>rq_topic = topic, rq_data = custom_msg, rq_len = 0, rq_qos = 0,
               rq_retain = False\<rparr>]))
      else (publish_count, []))\<close>

text \<open>
  The loop never ends; the model runs it for as many passes as it is given answers of
  \<^verbatim>\<open>mqtt_system_is_connected()\<close>, and returns the calls of each pass.
\<close>

fun custom_publish_loop :: "string \<Rightarrow> 32 word \<Rightarrow> bool list \<Rightarrow> publish_req list list" where
  "custom_publish_loop topic publish_count [] = []"
| "custom_publish_loop topic publish_count (connected # rest) =
     snd (custom_publish_cycle topic connected publish_count) #
     custom_publish_loop topic (fst (custom_publish_cycle topic connected publish_count)) rest"

definition custom_publish_task :: "string \<Rightarrow> bool list \<Rightarrow> publish_req list list" where
  "custom_publish_task topic answers = custom_publish_loop topic 0 answers"

subsection \<open>sensor_simulate_task.c\<close>

text \<open>
  What one pass of \<open>sensor_simulate_task\<close> reads: the answer of
  \<^verbatim>\<open>mqtt_system_is_connected()\<close> and the two values of \<^verbatim>\<open>esp_random()\<close>.
\<close>

record sensor_env =
  se_connected :: bool
  se_random1 :: "32 word"
  se_random2 :: "32 word"

definition sensor_simulate_cycle :: "sensor_env \<Rightarrow> publish_req list" where
  "sensor_simulate_cycle env =
     (if se_connected env then
        (let luminosity = sint (se_random1 env mod 11);
             temperature = sint (se_random2 env mod 49 - 3)
         in [\<lparr>rq_topic = ''/casa/externo/luminosidade'',
               rq_data = snprintf_c 16 (dec_int luminosity),
               rq_len = 0, rq_qos = 1, rq_retain = False\<rparr>,
             \<lparr>rq_topic = ''/casa/sala/temperatura'',
               rq_data = snprintf_c 16 (dec_int temperature),
               rq_len = 0, rq_qos = 1, rq_retain = False\<rparr>])
      else [])"

definition sensor_simulate_task :: "sensor_env list \<Rightarrow> publish_req list list" where
  "sensor_simulate_task envs = map sensor_simulate_cycle envs"

subsection \<open>mqtt.c: mqtt_publisher_task\<close>

text \<open>
  \<open>temperatura\<close> and \<open>umidade\<close> are floating-point values computed from \<^verbatim>\<open>rand()\<close>; one
  pass of the loop reads their \<^verbatim>\<open>%.2f\<close> texts from the environment.
\<close>

record publisher_env =
  pe_temperatura :: string
  pe_umidade :: string

definition mqtt_publisher_reqs :: "publisher_env \<Rightarrow> 32 word \<Rightarrow> publish_req list" where
  \<open>mqtt_publisher_reqs env contador =
     [\<lparr>rq_topic = ''demo/status/central'', rq_data = ''ONLINE'',
       rq_len = 0, rq_qos = 1, rq_retain = True\<rparr>,
      \<lparr>rq_topic = ''jardim/central/temperatura'',
       rq_data = snprintf_c 128 (pe_temperatura env),
       rq_len = 0, rq_qos = 0, rq_retain = False\<rparr>,
      \<lparr>rq_topic = ''jardim/sensor1/umidade'',
       rq_data = snprintf_c 128 (pe_umidade env),
       rq_len = 0, rq_qos = 0, rq_retain = False\<rparr>,
      \<lparr>rq_topic = ''jardim/central/telemetria'',
       rq_data = snprintf_c 128
         (''{"temp":'' @ pe_temperatura env @ '',"umid":'' @ pe_umidade env @
          '',"cnt":'' @ dec_nat (unat contador) @ ''}''),
       rq_len = 0, rq_qos = 1, rq_retain = False\<rparr>]\<close>

text \<open>The task calls \<open>mqtt_publish_data\<close> of the same file, one request after the other.\<close>

fun publish_all ::
  "esp_mqtt_client \<Rightarrow> mqtt_system \<Rightarrow> publish_req list \<Rightarrow> client_call list \<times> mqtt_system" where
  "publish_all tr s [] = ([], s)"
| "publish_all tr s (r # rs) =
     (case mqtt_publish_data tr s (rq_topic r) (rq_data r) (rq_len r) (rq_qos r) (rq_retain r) of
        (ret, calls, s1) \<Rightarrow>
          (case publish_all tr s1 rs of (calls1, s2) \<Rightarrow> (calls @ calls1, s2)))"

text \<open>
  One pass of the loop of \<open>mqtt_publisher_task\<close>: the new \<^verbatim>\<open>contador\<close>, the calls of the
  publish operation, the calls that reached the client, and the state.
\<close>

definition mqtt_publisher_cycle ::
  "esp_mqtt_client \<Rightarrow> mqtt_system \<Rightarrow> publisher_env \<Rightarrow> 32 word \<Rightarrow>
   32 word \<times> publish_req list \<times> client_call list \<times> mqtt_system" where
  "mqtt_publisher_cycle tr s env contador =
     (contador + 1, mqtt_publisher_reqs env contador,
      publish_all tr s (mqtt_publisher_reqs env contador))"

section \<open>Topic filters as the specification words them\<close>

text \<open>
  Section 4.2 of the specification: split the pattern and the topic on \<open>/\<close> and compare
  level by level; \<open>+\<close> matches any single level, \<open>#\<close> in the last position matches all
  the remaining levels, none included. mqtt.c has no such function: the filters go to
  the broker, and \<open>processar_topico\<close> looks at the topic with \<^verbatim>\<open>strncmp\<close> and \<^verbatim>\<open>strstr\<close>.
\<close>

fun split_levels :: "string \<Rightarrow> string list" where
  "split_levels [] = [[]]"
| "split_levels (c # cs) =
     (if c = CHR ''/'' then [] # split_levels cs
      else (case split_levels cs of [] \<Rightarrow> [[c]] | l # ls \<Rightarrow> (c # l) # ls))"

fun spec_levels_match :: "string list \<Rightarrow> string list \<Rightarrow> bool" where
  "spec_levels_match [] [] = True"
| "spec_levels_match [] (t # ts) = False"
| "spec_levels_match (p # ps) ts =
     (if p = ''#'' \<and> ps = [] then True
      else (case ts of
              [] \<Rightarrow> False
            | t # ts1 \<Rightarrow> (p = ''+'' \<or> p = t) \<and> spec_levels_match ps ts1))"

definition spec_topic_matches :: "string \<Rightarrow> string \<Rightarrow> bool" where
  "spec_topic_matches pattern topic =
     spec_levels_match (split_levels pattern) (split_levels topic)"

section \<open>Concrete clients and states\<close>

text \<open>
  A client that accepts everything, one whose publish fails, and states of the program
  with a client handle: one disconnected, one connected.
\<close>

definition client_ok :: esp_mqtt_client where
  "client_ok =
     \<lparr>client_init = (\<lambda>cfg. Some 2), client_start = (\<lambda>c. 0),
      client_subscribe = (\<lambda>c t q. 1), client_publish = (\<lambda>p. 5)\<rparr>"


definition statistics0 :: mqtt_statistics_t where
  "statistics0 =
     \<lparr>total_publicadas = 3, total_recebidas = 4, falhas_publicacao = 1,
      desconexoes = 2, tempo_desconectado_ms = 1500, ultima_mensagem_ts = 9000\<rparr>"

definition system_disconnected :: mqtt_system where
  "system_disconnected =
     \<lparr>mqtt_client = Some 1, session = Disconnected, statistics = statistics0\<rparr>"

definition system_connected :: mqtt_system where
  "system_connected =
     \<lparr>mqtt_client = Some 1, session = Connected, statistics = statistics0\<rparr>"

section \<open>Lemmas on the C strings and the bounded copy\<close>

lemma of_char_eq_0_iff: "(of_char c = (0::nat)) = (c = NUL)"
proof -
  have "(of_char c = (of_char NUL :: nat)) = (c = NUL)"
    by (simp only: of_char_eq_iff)
  then show ?thesis by (simp add: NUL_def)
qed

lemma uc_head_Cons: "uc_head (c # cs) = of_char c"
  by (simp add: uc_head_def)

lemma uc_head_Nil: "uc_head [] = 0"
  by (simp add: uc_head_def)

lemma cstr_Nil: "cstr [] = []"
  by (simp add: cstr_def)

lemma cstr_Cons: "cstr (c # cs) = (if c = NUL then [] else c # cstr cs)"
  by (simp add: cstr_def)

lemma cstr_no_NUL: "NUL \<notin> set (cstr s)"
  by (induction s) (simp_all add: cstr_Nil cstr_Cons)

lemma cstr_id: "NUL \<notin> set s \<Longrightarrow> cstr s = s"
  by (induction s) (auto simp add: cstr_Nil cstr_Cons)

lemma cstr_append_NUL: "cstr (xs @ NUL # ys) = cstr xs"
  by (induction xs) (simp_all add: cstr_Nil cstr_Cons)

lemma strncmp_c_eq_0_iff:
  "NUL \<notin> set lit \<Longrightarrow> length lit < n \<Longrightarrow> (strncmp_c s lit n = 0) = (cstr s = lit)"
proof (induction lit arbitrary: s n)
  case Nil
  then obtain k where n: "n = Suc k" by (cases n) auto
  show ?case
    by (cases s) (simp_all add: n uc_head_Nil uc_head_Cons cstr_Nil cstr_Cons of_char_eq_0_iff)
next
  case (Cons a lit)
  then obtain k where n: "n = Suc k" and k: "length lit < k" by (cases n) auto
  have a: "a \<noteq> NUL" and l: "NUL \<notin> set lit" using Cons.prems by auto
  show ?case
  proof (cases s)
    case Nil
    then show ?thesis using a by (simp add: n uc_head_Nil uc_head_Cons cstr_Nil of_char_eq_0_iff)
  next
    case (Cons c cs)
    show ?thesis
    proof (cases "c = a")
      case True
      then show ?thesis
        using a Cons.IH [OF l k, of cs]
        by (simp add: Cons n uc_head_Cons cstr_Cons of_char_eq_0_iff)
    next
      case False
      then show ?thesis
        by (simp add: Cons n uc_head_Cons cstr_Cons)
    qed
  qed
qed

lemma strcmp_c_eq_0_iff:
  "NUL \<notin> set lit \<Longrightarrow> (strcmp_c s lit = 0) = (cstr s = lit)"
proof (induction s arbitrary: lit)
  case Nil
  then show ?case
    by (cases lit) (auto simp add: uc_head_Nil uc_head_Cons cstr_Nil of_char_eq_0_iff)
next
  case (Cons c cs)
  show ?case
  proof (cases lit)
    case Nil
    then show ?thesis
      by (simp add: uc_head_Nil cstr_Cons of_char_eq_0_iff)
  next
    case (Cons a l)
    then have a: "a \<noteq> NUL" and l: "NUL \<notin> set l" using Cons.prems by auto
    show ?thesis
      using a Cons.IH [OF l]
      by (auto simp add: Cons uc_head_Cons cstr_Cons of_char_eq_0_iff)
  qed
qed

lemma starts_with_append: "NUL \<notin> set needle \<Longrightarrow> starts_with needle (needle @ b)"
  by (induction needle) auto

lemma strstr_c_found:
  "NUL \<notin> set a \<Longrightarrow> NUL \<notin> set needle \<Longrightarrow> strstr_c (a @ needle @ b) needle \<noteq> None"
proof (induction a)
  case Nil
  have s: "starts_with needle (needle @ b)"
    using Nil by (simp add: starts_with_append)
  show ?case
  proof (cases "needle @ b")
    case Nil
    then show ?thesis by simp
  next
    case (Cons x xs)
    have "strstr_c (x # xs) needle = Some 0"
      using s unfolding Cons by simp
    then show ?thesis by (simp add: Cons)
  qed
next
  case (Cons x a)
  then show ?case by auto
qed

lemma length_char_array: "length (char_array n junk) = n"
  by (simp add: char_array_def)

lemma sint_small: "unat (w :: 32 word) < 2 ^ 31 \<Longrightarrow> sint w = int (unat w)"
proof -
  assume a: "unat w < 2 ^ 31"
  have u: "uint w = int (unat w)" by simp
  have "int (unat w) < int (2 ^ 31)" using a by (simp only: of_nat_less_iff)
  then have lt: "int (unat w) < 2 ^ 31" by simp
  have ge: "- (2 ^ 31) \<le> int (unat w)" by (rule order_trans [of _ 0]) simp_all
  have "signed_take_bit 31 (int (unat w)) = int (unat w)"
    using ge lt by (simp only: signed_take_bit_int_eq_self)
  then show ?thesis by (simp only: sint_uint u) simp
qed

lemma unat_copy_len_c:
  assumes "0 < sz" "sz \<le> 2 ^ 31"
  shows "unat (copy_len_c len sz) = min (unat len) (sz - 1)"
proof -
  define m where "m = sz - 1"
  have b: "m < 2 ^ 32" using assms by (simp add: m_def)
  have u: "unat (of_nat m :: 32 word) = m"
    using b by (simp only: unat_of_nat) simp
  have "unat (if len < of_nat m then len else of_nat m) = min (unat len) m"
    by (simp add: word_less_nat_alt u min_def)
  then show ?thesis unfolding copy_len_c_def m_def .
qed

lemma sint_copy_len_c:
  assumes "0 < sz" "sz \<le> 2 ^ 31"
  shows "sint (copy_len_c len sz) = int (min (unat len) (sz - 1))"
proof -
  have "unat (copy_len_c len sz) = min (unat len) (sz - 1)"
    using assms by (rule unat_copy_len_c)
  moreover have "min (unat len) (sz - 1) < 2 ^ 31"
    using assms by simp
  ultimately show ?thesis
    using sint_small [of "copy_len_c len sz"] by simp
qed

lemma copy_terminated_Inr:
  assumes "0 < sz" "sz \<le> 2 ^ 31" "min (unat len) (sz - 1) \<le> length src"
  shows "copy_terminated sz junk src len =
         Inr ((take (min (unat len) (sz - 1)) src @
               drop (min (unat len) (sz - 1)) (char_array sz junk))[min (unat len) (sz - 1) := NUL])"
proof -
  define n where "n = min (unat len) (sz - 1)"
  have n: "n < sz" using assms by (simp add: n_def)
  have ns: "n \<le> length src" using assms by (simp add: n_def)
  have u: "unat (copy_len_c len sz) = n" using assms by (simp add: unat_copy_len_c n_def)
  have s: "sint (copy_len_c len sz) = int n" using assms by (simp add: sint_copy_len_c n_def)
  have m: "memcpy_c (char_array sz junk) src n = Inr (take n src @ drop n (char_array sz junk))"
    using n ns by (simp add: memcpy_c_def length_char_array)
  have l: "length (take n src @ drop n (char_array sz junk)) = sz"
    using n ns by (simp add: length_char_array)
  have "copy_terminated sz junk src len = Inr ((take n src @ drop n (char_array sz junk))[n := NUL])"
    unfolding copy_terminated_def Let_def u s m
    using n l by (simp add: store_c_def)
  then show ?thesis by (simp only: n_def)
qed

lemma copy_terminated_no_overflow:
  assumes "0 < sz" "sz \<le> 2 ^ 31"
  shows "copy_terminated sz junk src len \<noteq> Inl DstOverflow"
proof (cases "min (unat len) (sz - 1) \<le> length src")
  case True
  then show ?thesis using assms by (simp only: copy_terminated_Inr) simp
next
  case False
  define n where "n = min (unat len) (sz - 1)"
  have n: "n < sz" using assms by (simp add: n_def)
  have ns: "\<not> n \<le> length src" using False unfolding n_def .
  have u: "unat (copy_len_c len sz) = n" using assms by (simp add: unat_copy_len_c n_def)
  have m: "memcpy_c (char_array sz junk) src n = Inl SrcOverread"
    using n ns by (simp add: memcpy_c_def length_char_array)
  show ?thesis
    unfolding copy_terminated_def Let_def u m by simp
qed

lemma copy_terminated_text:
  assumes "0 < sz" "sz \<le> 2 ^ 31" "length src < 2 ^ 31"
  shows "copy_terminated sz junk src (word_of_nat (length src)) =
         Inr (take (sz - 1) src @ NUL #
              drop (Suc (min (length src) (sz - 1))) (char_array sz junk))"
proof -
  define n where "n = min (length src) (sz - 1)"
  have "length src < 2 ^ 32"
    using assms(3) by simp
  then have u: "unat (word_of_nat (length src) :: 32 word) = length src"
    by (simp only: unat_of_nat) simp
  have n: "n < sz" and ns: "n \<le> length src"
    using assms by (simp_all add: n_def)
  have t: "take n src = take (sz - 1) src"
    by (simp add: n_def min_def)
  have d: "drop n (char_array sz junk) = char_array sz junk ! n # drop (Suc n) (char_array sz junk)"
    using n by (simp add: Cons_nth_drop_Suc length_char_array)
  have "copy_terminated sz junk src (word_of_nat (length src)) =
        Inr ((take n src @ drop n (char_array sz junk))[n := NUL])"
    using assms(1,2) ns copy_terminated_Inr [of sz "word_of_nat (length src)" src junk]
    unfolding u n_def by simp
  also have "(take n src @ drop n (char_array sz junk))[n := NUL] =
             take n src @ (drop n (char_array sz junk))[0 := NUL]"
    using ns by (simp add: list_update_append)
  also have "(drop n (char_array sz junk))[0 := NUL] = NUL # drop (Suc n) (char_array sz junk)"
    by (subst d) simp
  finally show ?thesis
    unfolding t unfolding n_def .
qed

lemma processar_mensagem_mqtt_Inr:
  assumes "length topic < 2 ^ 31" "length data < 2 ^ 31"
  shows "processar_mensagem_mqtt lib junk_t junk_d topic (word_of_nat (length topic))
           data (word_of_nat (length data)) =
         Inr \<lparr>topic_str = take 127 topic @ NUL #
                  drop (Suc (min (length topic) 127)) (char_array 128 junk_t),
              data_str = take 255 data @ NUL #
                  drop (Suc (min (length data) 255)) (char_array 256 junk_d),
              logged = (LOGI, Processando (cstr (take 127 topic)) (cstr (take 255 data))) #
                  processar_topico lib
                    (take 127 topic @ NUL #
                       drop (Suc (min (length topic) 127)) (char_array 128 junk_t))
                    (take 255 data @ NUL #
                       drop (Suc (min (length data) 255)) (char_array 256 junk_d))\<rparr>"
proof -
  have t: "copy_terminated 128 junk_t topic (word_of_nat (length topic)) =
           Inr (take 127 topic @ NUL #
                drop (Suc (min (length topic) 127)) (char_array 128 junk_t))"
    using assms(1) copy_terminated_text [of 128 topic junk_t] by simp
  have d: "copy_terminated 256 junk_d data (word_of_nat (length data)) =
           Inr (take 255 data @ NUL #
                drop (Suc (min (length data) 255)) (char_array 256 junk_d))"
    using assms(2) copy_terminated_text [of 256 data junk_d] by simp
  show ?thesis
    unfolding processar_mensagem_mqtt_def TOPIC_STR_SIZE_def DATA_STR_SIZE_def t d
    by (simp add: cstr_append_NUL)
qed

lemma processar_mensagem_mqtt_no_overflow:
  "processar_mensagem_mqtt lib junk_t junk_d topic topic_len data data_len \<noteq> Inl DstOverflow"
proof -
  have t: "copy_terminated 128 junk_t topic topic_len \<noteq> Inl DstOverflow"
    by (rule copy_terminated_no_overflow) simp_all
  have d: "copy_terminated 256 junk_d data data_len \<noteq> Inl DstOverflow"
    by (rule copy_terminated_no_overflow) simp_all
  show ?thesis
    using t d
    unfolding processar_mensagem_mqtt_def TOPIC_STR_SIZE_def DATA_STR_SIZE_def
    by (auto split: sum.splits)
qed

lemma starts_with_cstr: "starts_with needle s = starts_with needle (cstr s)"
proof (induction needle s rule: starts_with.induct)
  case (1 hay)
  then show ?case by simp
next
  case (2 c cs)
  then show ?case by (simp add: cstr_Nil)
next
  case (3 c cs x xs)
  then show ?case by (simp add: cstr_Cons)
qed

lemma strstr_c_cstr: "strstr_c s needle = strstr_c (cstr s) needle"
proof (induction s)
  case Nil
  then show ?case by (simp add: cstr_Nil)
next
  case (Cons x xs)
  show ?case
  proof (cases "x = NUL")
    case True
    then show ?thesis
      using starts_with_cstr [of needle "x # xs"]
      by (cases needle) (simp_all add: cstr_Cons)
  next
    case False
    then show ?thesis
      using Cons.IH starts_with_cstr [of needle "x # xs"]
      by (simp add: cstr_Cons)
  qed
qed

lemma processar_topico_bomba:
  assumes "cstr t = ''demo/comandos/bomba''"
  shows "processar_topico lib t d =
         [if cstr d = ''LIGAR'' then (LOGI, AcionandoBomba)
          else if cstr d = ''DESLIGAR'' then (LOGI, DesligandoBomba)
          else (LOGW, ComandoDesconhecidoBomba (cstr d))]"
proof -
  have b: "strncmp_c t ''demo/comandos/bomba'' 24 = 0"
    using assms by (subst strncmp_c_eq_0_iff) (simp_all add: NUL_def)
  have l: "(strcmp_c d ''LIGAR'' = 0) = (cstr d = ''LIGAR'')"
    by (rule strcmp_c_eq_0_iff) (simp add: NUL_def)
  have dl: "(strcmp_c d ''DESLIGAR'' = 0) = (cstr d = ''DESLIGAR'')"
    by (rule strcmp_c_eq_0_iff) (simp add: NUL_def)
  show ?thesis
    unfolding processar_topico_def b l dl by simp
qed

lemma processar_topico_not_bomba:
  assumes "cstr t \<noteq> ''demo/comandos/bomba''"
  shows "processar_topico lib t d =
         (if strncmp_c t ''demo/comandos/valvula/'' 27 = 0 then
            [(LOGI, ComandoValvula (atoi lib (drop 27 t)) (cstr d))]
          else if strstr_c t ''temperatura'' \<noteq> None then
            (LOGI, TemperaturaRecebida (atof lib d)) #
            (if float_gt_35 lib (atof lib d) then [(LOGW, TemperaturaAlta)] else [])
          else [(LOGD, TopicoNaoTratado (cstr t))])"
proof -
  have b: "strncmp_c t ''demo/comandos/bomba'' 24 \<noteq> 0"
    using assms by (subst strncmp_c_eq_0_iff) (simp_all add: NUL_def)
  show ?thesis
    unfolding processar_topico_def using b by simp
qed

lemma strncmp_valvula_iff:
  "(strncmp_c t ''demo/comandos/valvula/'' 27 = 0) = (cstr t = ''demo/comandos/valvula/'')"
  by (rule strncmp_c_eq_0_iff) (simp_all add: NUL_def)

lemma cstr_append: "NUL \<notin> set xs \<Longrightarrow> cstr (xs @ ys) = xs @ cstr ys"
  by (induction xs) (auto simp add: cstr_Cons)

text \<open>\<open>strstr_c\<close> finds the needle exactly when the text of the string holds it.\<close>

lemma starts_with_text:
  "NUL \<notin> set needle \<Longrightarrow> starts_with needle s \<Longrightarrow> \<exists>b. cstr s = needle @ b"
proof (induction needle s rule: starts_with.induct)
  case (1 hay)
  then show ?case by simp
next
  case (2 c cs)
  then show ?case by simp
next
  case (3 c cs x xs)
  then show ?case by (auto simp add: cstr_Cons)
qed

lemma strstr_c_text:
  "NUL \<notin> set needle \<Longrightarrow> strstr_c s needle \<noteq> None \<Longrightarrow> \<exists>a b. cstr s = a @ needle @ b"
proof (induction s)
  case Nil
  then show ?case by (auto simp add: cstr_Nil split: if_splits)
next
  case (Cons x xs)
  show ?case
  proof (cases "starts_with needle (x # xs)")
    case True
    then obtain b where "cstr (x # xs) = needle @ b"
      using Cons.prems(1) starts_with_text by blast
    then have "cstr (x # xs) = [] @ needle @ b" by simp
    then show ?thesis by blast
  next
    case False
    then have x: "x \<noteq> NUL" and r: "strstr_c xs needle \<noteq> None"
      using Cons.prems(2) by (auto split: if_splits)
    obtain a b where "cstr xs = a @ needle @ b"
      using Cons.IH [OF Cons.prems(1) r] by blast
    then have "cstr (x # xs) = (x # a) @ needle @ b"
      using x by (simp add: cstr_Cons)
    then show ?thesis by blast
  qed
qed

lemma strstr_c_iff:
  assumes "NUL \<notin> set needle"
  shows "(strstr_c s needle \<noteq> None) = (\<exists>a b. cstr s = a @ needle @ b)"
proof
  assume "strstr_c s needle \<noteq> None"
  then show "\<exists>a b. cstr s = a @ needle @ b"
    using assms strstr_c_text by blast
next
  assume "\<exists>a b. cstr s = a @ needle @ b"
  then obtain a b where c: "cstr s = a @ needle @ b" by blast
  have "NUL \<notin> set (cstr s)" by (rule cstr_no_NUL)
  then have "NUL \<notin> set a" unfolding c by simp
  then have "strstr_c (a @ needle @ b) needle \<noteq> None"
    using assms by (rule strstr_c_found)
  then show "strstr_c s needle \<noteq> None"
    using strstr_c_cstr [of s needle] unfolding c by simp
qed

lemma processar_topico_text:
  assumes "take 19 (cstr t) \<noteq> ''demo/comandos/bomba''"
    and "take 22 (cstr t) \<noteq> ''demo/comandos/valvula/''"
  shows "processar_topico lib t d =
         (if \<exists>a b. cstr t = a @ ''temperatura'' @ b then
            (LOGI, TemperaturaRecebida (atof lib d)) #
            (if float_gt_35 lib (atof lib d) then [(LOGW, TemperaturaAlta)] else [])
          else [(LOGD, TopicoNaoTratado (cstr t))])"
proof -
  have nb: "cstr t \<noteq> ''demo/comandos/bomba''"
    using assms(1) by auto
  have "cstr t \<noteq> ''demo/comandos/valvula/''"
    using assms(2) by auto
  then have nv: "strncmp_c t ''demo/comandos/valvula/'' 27 \<noteq> 0"
    unfolding strncmp_valvula_iff .
  have st: "(strstr_c t ''temperatura'' \<noteq> None) = (\<exists>a b. cstr t = a @ ''temperatura'' @ b)"
    by (rule strstr_c_iff) (simp add: NUL_def)
  show ?thesis
    unfolding processar_topico_not_bomba [OF nb] st using nv by simp
qed

lemma contains_text_iff:
  assumes "NUL \<notin> set s" and "NUL \<notin> set needle"
  shows "(\<exists>a b. s = a @ needle @ b) = (strstr_c s needle \<noteq> None)"
  using strstr_c_iff [OF assms(2), of s] assms(1) by (simp add: cstr_id)

section \<open>Lemmas on the topic filters of the specification\<close>

lemma split_levels_not_Nil: "split_levels s \<noteq> []"
  by (induction s) (auto split: list.splits)

lemma split_levels_join:
  "split_levels s = l # ls \<Longrightarrow> s = l @ concat (map (\<lambda>x. CHR ''/'' # x) ls)"
proof (induction s arbitrary: l ls)
  case Nil
  then show ?case by simp
next
  case (Cons c cs)
  obtain l1 ls1 where s: "split_levels cs = l1 # ls1"
    using split_levels_not_Nil [of cs] by (cases "split_levels cs") auto
  have cs: "cs = l1 @ concat (map (\<lambda>x. CHR ''/'' # x) ls1)"
    using s by (rule Cons.IH)
  show ?case
  proof (cases "c = CHR ''/''")
    case True
    then have "l = []" and "ls = l1 # ls1"
      using Cons.prems s by simp_all
    then show ?thesis using cs True by simp
  next
    case False
    then have "l = c # l1" and "ls = ls1"
      using Cons.prems s by simp_all
    then show ?thesis using cs by simp
  qed
qed

lemma spec_levels_match_Nil: "spec_levels_match [] ts = (ts = [])"
  by (cases ts) simp_all

lemma split_levels_pattern:
  "split_levels ''jardim/+/temperatura'' = [''jardim'', ''+'', ''temperatura'']"
  by simp

lemma spec_match_temperatura:
  assumes "spec_topic_matches ''jardim/+/temperatura'' topic"
  shows "\<exists>l. topic = ''jardim/'' @ l @ ''/temperatura''"
proof -
  have m: "spec_levels_match [''jardim'', ''+'', ''temperatura''] (split_levels topic)"
    using assms unfolding spec_topic_matches_def split_levels_pattern .
  obtain l where "split_levels topic = [''jardim'', l, ''temperatura'']"
    using m by (auto simp add: spec_levels_match_Nil split: list.splits if_splits)
  then have "topic = ''jardim'' @ concat (map (\<lambda>x. CHR ''/'' # x) [l, ''temperatura''])"
    by (rule split_levels_join)
  then show ?thesis by simp
qed

text \<open>The definition gives the examples of the specification (section 8).\<close>

lemma spec_topic_matches_examples:
  "spec_topic_matches ''a/+/c'' ''a/b/c'' \<and>
   \<not> spec_topic_matches ''a/+/c'' ''a/b/d/c'' \<and>
   spec_topic_matches ''a/#'' ''a'' \<and>
   spec_topic_matches ''a/#'' ''a/b'' \<and>
   spec_topic_matches ''a/#'' ''a/b/c''"
  by (simp add: spec_topic_matches_def)

section \<open>Lemmas on the publish operation and the tasks\<close>

lemma mqtt_publish_data_uninitialised:
  "mqtt_client s = None \<Longrightarrow> mqtt_publish_data tr s topic data len qos retain = (- 1, [], s)"
  by (simp add: mqtt_publish_data_def)

lemma mqtt_publish_data_result:
  "mqtt_client s = Some c \<Longrightarrow>
   \<exists>call. fst (snd (mqtt_publish_data tr s topic data len qos retain)) = [ClientPublish call] \<and>
     fst (mqtt_publish_data tr s topic data len qos retain) =
       (if client_publish tr call < 0 then - 1 else client_publish tr call)"
  by (simp add: mqtt_publish_data_def Let_def)

lemma length_custom_publish_loop:
  "length (custom_publish_loop topic cnt answers) = length answers"
  by (induction answers arbitrary: cnt) simp_all

lemma custom_publish_cycle_skips:
  "\<not> connected \<Longrightarrow> custom_publish_cycle topic connected cnt = (cnt, [])"
  by (simp add: custom_publish_cycle_def)

lemma custom_publish_loop_skips:
  "i < length answers \<Longrightarrow> \<not> answers ! i \<Longrightarrow> custom_publish_loop topic cnt answers ! i = []"
proof (induction answers arbitrary: cnt i)
  case Nil
  then show ?case by simp
next
  case (Cons a answers)
  show ?case
  proof (cases i)
    case 0
    then show ?thesis
      using Cons.prems by (simp add: custom_publish_cycle_skips)
  next
    case (Suc j)
    then show ?thesis
      using Cons.prems Cons.IH [of j] by simp
  qed
qed

lemma length_mqtt_publisher_reqs: "length (mqtt_publisher_reqs env contador) = 4"
  by (simp add: mqtt_publisher_reqs_def)

text \<open>
  \<open>custom_publish_task\<close> and \<open>sensor_simulate_task\<close> ask \<^verbatim>\<open>mqtt_system_is_connected()\<close> in
  every pass and call the publish operation only when the answer is true.
\<close>

lemma gated_tasks_skip_when_disconnected:
  "(\<forall>i < length answers. \<not> answers ! i \<longrightarrow> custom_publish_task topic answers ! i = []) \<and>
   (\<forall>i < length envs. \<not> se_connected (envs ! i) \<longrightarrow> sensor_simulate_task envs ! i = []) \<and>
   length (custom_publish_task topic answers) = length answers \<and>
   length (sensor_simulate_task envs) = length envs"
  by (simp add: custom_publish_task_def custom_publish_loop_skips length_custom_publish_loop
      sensor_simulate_task_def sensor_simulate_cycle_def)

section \<open>The claims\<close>

text \<open>
  C1. The publish operation is claimed to return an error, and to make no call to the
  client, whenever the session is not connected. \<open>mqtt_publish_data\<close> only tests that
  the handle is not NULL: with a handle and a disconnected session it calls
  \<^verbatim>\<open>esp_mqtt_client_publish\<close> and returns the identifier the client gives.
\<close>

theorem mqtt_publish_data_disconnected_reaches_client:
  "\<not> mqtt_system_is_connected system_disconnected \<and>
   mqtt_publish_data client_ok system_disconnected ''status'' ''ONLINE'' 0 1 True =
     (5,
      [ClientPublish \<lparr>pc_client = 1, pc_topic = ''status'', pc_data = ''ONLINE'',
                      pc_len = 6, pc_qos = 1, pc_retain = 1\<rparr>],
      system_disconnected)"
  by (simp add: mqtt_system_is_connected_def system_disconnected_def client_ok_def
      mqtt_publish_data_def int_of_size_t_def strlen_c_def cstr_def NUL_def)


text \<open>
  C3. A periodic publisher is claimed to make no publish call in a pass in which the
  session is not connected. One pass of \<open>mqtt_publisher_task\<close> asks nothing and calls
  \<open>mqtt_publish_data\<close> four times; with a handle and a disconnected session the four
  calls reach the client.
\<close>

theorem mqtt_publisher_task_publishes_when_disconnected:
  "\<not> mqtt_system_is_connected system_disconnected \<and>
   map rq_topic (fst (snd (mqtt_publisher_cycle client_ok system_disconnected
     \<lparr>pe_temperatura = ''21.50'', pe_umidade = ''40.10''\<rparr> 0))) =
     [''demo/status/central'', ''jardim/central/temperatura'', ''jardim/sensor1/umidade'',
      ''jardim/central/telemetria''] \<and>
   length (fst (snd (snd (mqtt_publisher_cycle client_ok system_disconnected
     \<lparr>pe_temperatura = ''21.50'', pe_umidade = ''40.10''\<rparr> 0)))) = 4"
  by (simp add: mqtt_system_is_connected_def system_disconnected_def client_ok_def
      mqtt_publisher_cycle_def mqtt_publisher_reqs_def mqtt_publish_data_def Let_def)

text \<open>
  C4. \<open>mqtt_reset_statistics\<close> sets the counts of published and received messages, the
  count of publish failures and the time of the last message to zero, and leaves the
  count of disconnections and the time spent disconnected as they were.
\<close>

theorem mqtt_reset_statistics_fields:
  "mqtt_reset_statistics st =
     \<lparr>total_publicadas = 0, total_recebidas = 0, falhas_publicacao = 0,
      desconexoes = desconexoes st, tempo_desconectado_ms = tempo_desconectado_ms st,
      ultima_mensagem_ts = 0\<rparr>"
  by (simp add: mqtt_reset_statistics_def)

text \<open>
  C5. For every inbound topic and payload, of any lengths, \<open>processar_mensagem_mqtt\<close>
  never writes past its two arrays; with the lengths of the pair it copies the first 127
  bytes of the topic and the first 255 bytes of the payload at most, and writes the
  terminator right after each copy, inside the array.
\<close>

theorem processar_mensagem_mqtt_bounded_copy:
  "processar_mensagem_mqtt lib junk_t junk_d topic topic_len data data_len \<noteq> Inl DstOverflow \<and>
   (length topic < 2 ^ 31 \<and> length data < 2 ^ 31 \<longrightarrow>
    (\<exists>r. processar_mensagem_mqtt lib junk_t junk_d topic (word_of_nat (length topic))
            data (word_of_nat (length data)) = Inr r \<and>
         topic_str r = take 127 topic @ NUL #
            drop (Suc (min (length topic) 127)) (char_array 128 junk_t) \<and>
         data_str r = take 255 data @ NUL #
            drop (Suc (min (length data) 255)) (char_array 256 junk_d) \<and>
         length (topic_str r) = 128 \<and> length (data_str r) = 256 \<and>
         strlen_c (topic_str r) \<le> 127 \<and> strlen_c (data_str r) \<le> 255))"
proof (intro conjI impI)
  show "processar_mensagem_mqtt lib junk_t junk_d topic topic_len data data_len \<noteq> Inl DstOverflow"
    by (rule processar_mensagem_mqtt_no_overflow)
next
  assume a: "length topic < 2 ^ 31 \<and> length data < 2 ^ 31"
  have lt: "length (take 127 topic @ NUL #
              drop (Suc (min (length topic) 127)) (char_array 128 junk_t)) = 128"
    by (simp add: length_char_array min_def)
  have ld: "length (take 255 data @ NUL #
              drop (Suc (min (length data) 255)) (char_array 256 junk_d)) = 256"
    by (simp add: length_char_array min_def)
  have "length (cstr (take 127 topic)) \<le> length (take 127 topic)"
    unfolding cstr_def by (rule length_takeWhile_le)
  then have st: "length (cstr (take 127 topic)) \<le> 127" by simp
  have "length (cstr (take 255 data)) \<le> length (take 255 data)"
    unfolding cstr_def by (rule length_takeWhile_le)
  then have sd: "length (cstr (take 255 data)) \<le> 255" by simp
  show "\<exists>r. processar_mensagem_mqtt lib junk_t junk_d topic (word_of_nat (length topic))
            data (word_of_nat (length data)) = Inr r \<and>
         topic_str r = take 127 topic @ NUL #
            drop (Suc (min (length topic) 127)) (char_array 128 junk_t) \<and>
         data_str r = take 255 data @ NUL #
            drop (Suc (min (length data) 255)) (char_array 256 junk_d) \<and>
         length (topic_str r) = 128 \<and> length (data_str r) = 256 \<and>
         strlen_c (topic_str r) \<le> 127 \<and> strlen_c (data_str r) \<le> 255"
    using a lt ld st sd
    by (simp add: processar_mensagem_mqtt_Inr strlen_c_def cstr_append_NUL)
qed

theorem processar_mensagem_mqtt_bounded_copy_witness:
  "processar_mensagem_mqtt libc0 [] [] (replicate 200 CHR ''a'') 200 ''LIGAR'' 5 \<noteq> Inl DstOverflow \<and>
   (\<exists>r. processar_mensagem_mqtt libc0 [] [] (replicate 200 CHR ''a'') 200 ''LIGAR'' 5 = Inr r \<and>
        length (topic_str r) = 128 \<and> strlen_c (topic_str r) \<le> 127 \<and>
        data_str r = ''LIGAR'' @ replicate 251 NUL)"
  using processar_mensagem_mqtt_bounded_copy
    [of libc0 "[]" "[]" "replicate 200 CHR ''a''" 200 "''LIGAR''" 5]
  by (simp add: char_array_def) (auto simp add: numeral_eq_Suc replicate_append_same)

text \<open>
  C6, as the code has it. For every message whose topic text (the copy cut at 127 bytes
  and at the first NUL) is exactly \<open>demo/comandos/bomba\<close>, the payload text \<open>LIGAR\<close>
  gives the on action and \<open>DESLIGAR\<close> the off action, compared character by character,
  so case counts; any other payload is logged as a warning, and the processing returns.
\<close>

theorem bomba_command_dispatch:
  assumes "length topic < 2 ^ 31" and "length data < 2 ^ 31"
    and "cstr (take 127 topic) = ''demo/comandos/bomba''"
  shows "\<exists>r. processar_mensagem_mqtt lib junk_t junk_d topic (word_of_nat (length topic))
             data (word_of_nat (length data)) = Inr r \<and>
           logged r =
             [(LOGI, Processando ''demo/comandos/bomba'' (cstr (take 255 data))),
              if cstr (take 255 data) = ''LIGAR'' then (LOGI, AcionandoBomba)
              else if cstr (take 255 data) = ''DESLIGAR'' then (LOGI, DesligandoBomba)
              else (LOGW, ComandoDesconhecidoBomba (cstr (take 255 data)))]"
proof -
  define t where "t = take 127 topic @ NUL #
      drop (Suc (min (length topic) 127)) (char_array 128 junk_t)"
  define d where "d = take 255 data @ NUL #
      drop (Suc (min (length data) 255)) (char_array 256 junk_d)"
  have ct: "cstr t = ''demo/comandos/bomba''"
    unfolding t_def using assms(3) by (simp only: cstr_append_NUL)
  have cd: "cstr d = cstr (take 255 data)"
    unfolding d_def by (rule cstr_append_NUL)
  have e: "processar_mensagem_mqtt lib junk_t junk_d topic (word_of_nat (length topic))
          data (word_of_nat (length data)) =
        Inr \<lparr>topic_str = t, data_str = d,
             logged = (LOGI, Processando (cstr (take 127 topic)) (cstr (take 255 data))) #
                      processar_topico lib t d\<rparr>"
    using assms(1,2) unfolding t_def d_def
    by (rule processar_mensagem_mqtt_Inr)
  have b: "processar_topico lib t d =
             [if cstr (take 255 data) = ''LIGAR'' then (LOGI, AcionandoBomba)
              else if cstr (take 255 data) = ''DESLIGAR'' then (LOGI, DesligandoBomba)
              else (LOGW, ComandoDesconhecidoBomba (cstr (take 255 data)))]"
    using processar_topico_bomba [OF ct, of lib d] unfolding cd .
  show ?thesis
    unfolding e b using assms(3) by simp
qed

theorem bomba_command_dispatch_witness:
  "(\<exists>r. processar_mensagem_mqtt libc0 [] [] ''demo/comandos/bomba'' 19 ''DESLIGAR'' 8 = Inr r \<and>
        logged r = [(LOGI, Processando ''demo/comandos/bomba'' ''DESLIGAR''),
                    (LOGI, DesligandoBomba)]) \<and>
   (\<exists>r. processar_mensagem_mqtt libc0 [] [] ''demo/comandos/bomba'' 19 ''ligar'' 5 = Inr r \<and>
        logged r = [(LOGI, Processando ''demo/comandos/bomba'' ''ligar''),
                    (LOGW, ComandoDesconhecidoBomba ''ligar'')])"
  using bomba_command_dispatch [of "''demo/comandos/bomba''" "''DESLIGAR''" libc0 "[]" "[]"]
    bomba_command_dispatch [of "''demo/comandos/bomba''" "''ligar''" libc0 "[]" "[]"]
  by (simp add: cstr_Cons cstr_Nil NUL_def)

text \<open>
  C6 as claimed fails on the other command topics: \<open>LIGAR\<close> sent to
  \<open>demo/comandos/luz\<close> is not compared with anything and gives no action.
\<close>

theorem command_topic_luz_not_dispatched:
  "map_sum id logged
     (processar_mensagem_mqtt libc0 [] [] ''demo/comandos/luz'' 17 ''LIGAR'' 5) =
   Inr [(LOGI, Processando ''demo/comandos/luz'' ''LIGAR''),
        (LOGD, TopicoNaoTratado ''demo/comandos/luz'')]"
  by code_simp

text \<open>
  C7, as the code has it. \<open>processar_mensagem_mqtt\<close> matches no pattern level by level;
  the filters \<open>jardim/+/temperatura\<close> and \<open>demo/comandos/#\<close> go to the broker. A topic
  that does not begin with \<open>demo/comandos/bomba\<close> or \<open>demo/comandos/valvula/\<close> is taken
  by the temperature branch exactly when it holds the text \<open>temperatura\<close>, whatever its
  levels, and by the unhandled branch otherwise. So every topic that
  \<open>jardim/+/temperatura\<close> matches, one level standing for \<open>+\<close>, is taken by the
  temperature branch, and a topic that \<open>demo/comandos/#\<close> matches, with any number of
  trailing levels, zero included, is dispatched on its text in the same way.
\<close>

theorem topic_dispatch_by_text:
  assumes "NUL \<notin> set topic" and "length topic \<le> 127" and "length data < 2 ^ 31"
  shows "\<exists>r. processar_mensagem_mqtt lib junk_t junk_d topic (word_of_nat (length topic))
             data (word_of_nat (length data)) = Inr r \<and>
           (take 19 topic \<noteq> ''demo/comandos/bomba'' \<and>
            take 22 topic \<noteq> ''demo/comandos/valvula/'' \<longrightarrow>
              logged r =
                (LOGI, Processando topic (cstr (take 255 data))) #
                (if \<exists>a b. topic = a @ ''temperatura'' @ b then
                   (LOGI, TemperaturaRecebida (atof lib (data_str r))) #
                   (if float_gt_35 lib (atof lib (data_str r)) then [(LOGW, TemperaturaAlta)]
                    else [])
                 else [(LOGD, TopicoNaoTratado topic)])) \<and>
           (spec_topic_matches ''jardim/+/temperatura'' topic \<longrightarrow>
              logged r =
                (LOGI, Processando topic (cstr (take 255 data))) #
                (LOGI, TemperaturaRecebida (atof lib (data_str r))) #
                (if float_gt_35 lib (atof lib (data_str r)) then [(LOGW, TemperaturaAlta)]
                 else [])) \<and>
           (spec_topic_matches ''demo/comandos/#'' topic \<and>
            take 19 topic \<noteq> ''demo/comandos/bomba'' \<and>
            take 22 topic \<noteq> ''demo/comandos/valvula/'' \<longrightarrow>
              logged r =
                (LOGI, Processando topic (cstr (take 255 data))) #
                (if \<exists>a b. topic = a @ ''temperatura'' @ b then
                   (LOGI, TemperaturaRecebida (atof lib (data_str r))) #
                   (if float_gt_35 lib (atof lib (data_str r)) then [(LOGW, TemperaturaAlta)]
                    else [])
                 else [(LOGD, TopicoNaoTratado topic)]))"
proof -
  define t where "t = take 127 topic @ NUL #
      drop (Suc (min (length topic) 127)) (char_array 128 junk_t)"
  define d where "d = take 255 data @ NUL #
      drop (Suc (min (length data) 255)) (char_array 256 junk_d)"
  define temp where "temp =
      (LOGI, TemperaturaRecebida (atof lib d)) #
      (if float_gt_35 lib (atof lib d) then [(LOGW, TemperaturaAlta)] else [])"
  have "cstr t = cstr (take 127 topic)"
    unfolding t_def by (rule cstr_append_NUL)
  also have "\<dots> = topic"
    using assms(1,2) by (simp add: cstr_id)
  finally have ct: "cstr t = topic" .
  have "length topic < 2 ^ 31"
    using assms(2) by simp
  then have e: "processar_mensagem_mqtt lib junk_t junk_d topic (word_of_nat (length topic))
          data (word_of_nat (length data)) =
        Inr \<lparr>topic_str = t, data_str = d,
             logged = (LOGI, Processando (cstr (take 127 topic)) (cstr (take 255 data))) #
                      processar_topico lib t d\<rparr>"
    using assms(3) unfolding t_def d_def
    by (rule processar_mensagem_mqtt_Inr)
  have tk: "cstr (take 127 topic) = topic"
    using assms(1,2) by (simp add: cstr_id)
  have a: "take 19 topic \<noteq> ''demo/comandos/bomba'' \<and>
           take 22 topic \<noteq> ''demo/comandos/valvula/'' \<longrightarrow>
           processar_topico lib t d =
             (if \<exists>a b. topic = a @ ''temperatura'' @ b then temp
              else [(LOGD, TopicoNaoTratado topic)])"
    using processar_topico_text [of t lib d] unfolding ct temp_def by blast
  have b: "processar_topico lib t d = temp"
    if m: "spec_topic_matches ''jardim/+/temperatura'' topic"
  proof -
    obtain l where l: "topic = ''jardim/'' @ l @ ''/temperatura''"
      using m spec_match_temperatura by blast
    have nb: "take 19 topic \<noteq> ''demo/comandos/bomba''"
      unfolding l by simp
    have nv: "take 22 topic \<noteq> ''demo/comandos/valvula/''"
      unfolding l by simp
    have "topic = (''jardim/'' @ l @ ''/'') @ ''temperatura'' @ []"
      unfolding l by simp
    then have "\<exists>a b. topic = a @ ''temperatura'' @ b"
      by blast
    then show ?thesis
      using a nb nv by simp
  qed
  show ?thesis
    unfolding e using a b by (simp add: tk temp_def)
qed

theorem topic_dispatch_by_text_witness:
  "spec_topic_matches ''jardim/+/temperatura'' ''jardim/sensor1/temperatura'' \<and>
   (\<exists>r. processar_mensagem_mqtt libc0 [] [] ''jardim/sensor1/temperatura'' 26 ''21.5'' 4 = Inr r \<and>
        logged r = [(LOGI, Processando ''jardim/sensor1/temperatura'' ''21.5''),
                    (LOGI, TemperaturaRecebida 2150)]) \<and>
   spec_topic_matches ''demo/comandos/#'' ''demo/comandos'' \<and>
   (\<exists>r. processar_mensagem_mqtt libc0 [] [] ''demo/comandos'' 13 ''LIGAR'' 5 = Inr r \<and>
        logged r = [(LOGI, Processando ''demo/comandos'' ''LIGAR''),
                    (LOGD, TopicoNaoTratado ''demo/comandos'')])"
proof -
  have m1: "spec_topic_matches ''jardim/+/temperatura'' ''jardim/sensor1/temperatura''"
    by (simp add: spec_topic_matches_def)
  have n1: "NUL \<notin> set ''jardim/sensor1/temperatura''"
    by (simp add: NUL_def)
  have m2: "spec_topic_matches ''demo/comandos/#'' ''demo/comandos''"
    by (simp add: spec_topic_matches_def)
  have n2: "NUL \<notin> set ''demo/comandos''"
    by (simp add: NUL_def)
  have n3: "NUL \<notin> set ''temperatura''"
    by (simp add: NUL_def)
  have f: "atof libc0 s = 2150" for s
    by (simp add: libc0_def)
  have g: "float_gt_35 libc0 x = (3500 < x)" for x
    by (simp add: libc0_def)
  have c2: "\<not> (\<exists>a b. ''demo/comandos'' = a @ ''temperatura'' @ b)"
    unfolding contains_text_iff [OF n2 n3] by (simp add: NUL_def)
  have w1: "\<exists>r. processar_mensagem_mqtt libc0 [] [] ''jardim/sensor1/temperatura'' 26 ''21.5'' 4 = Inr r \<and>
        logged r = [(LOGI, Processando ''jardim/sensor1/temperatura'' ''21.5''),
                    (LOGI, TemperaturaRecebida 2150)]"
    using m1 topic_dispatch_by_text [OF n1, of "''21.5''" libc0 "[]" "[]"]
    by (simp add: cstr_Cons cstr_Nil NUL_def f g; blast)
  have w2: "\<exists>r. processar_mensagem_mqtt libc0 [] [] ''demo/comandos'' 13 ''LIGAR'' 5 = Inr r \<and>
        logged r = [(LOGI, Processando ''demo/comandos'' ''LIGAR''),
                    (LOGD, TopicoNaoTratado ''demo/comandos'')]"
    using m2 c2 topic_dispatch_by_text [OF n2, of "''LIGAR''" libc0 "[]" "[]"]
    by (simp add: cstr_Cons cstr_Nil NUL_def; blast)
  show ?thesis
    using m1 m2 w1 w2 by blast
qed

text \<open>
  C7 as claimed fails: the filter \<open>jardim/+/temperatura\<close> does not match
  \<open>demo/comandos/x/temperatura\<close>, which arrives under \<open>demo/comandos/#\<close>, and the
  temperature branch takes it all the same.
\<close>

theorem temperatura_branch_takes_command_topic:
  "spec_topic_matches ''demo/comandos/#'' ''demo/comandos/x/temperatura'' \<and>
   \<not> spec_topic_matches ''jardim/+/temperatura'' ''demo/comandos/x/temperatura'' \<and>
   map_sum id logged
     (processar_mensagem_mqtt libc0 [] [] ''demo/comandos/x/temperatura'' 27 ''21.5'' 4) =
   Inr [(LOGI, Processando ''demo/comandos/x/temperatura'' ''21.5''),
        (LOGI, TemperaturaRecebida 2150)]"
  by code_simp

text \<open>
  C8, as the code has it. \<open>mqtt_app_start\<close> has no guard: whatever the state, it creates
  a client and stores its handle in \<^verbatim>\<open>mqtt_client\<close>; it fails exactly when the client
  library gives no handle or refuses to start, and its result does not depend on the
  state it is called in.
\<close>

theorem mqtt_app_start_result:
  "(fst (mqtt_app_start tr s) = None) =
     (case client_init tr mqtt_cfg0 of None \<Rightarrow> True | Some c \<Rightarrow> client_start tr c \<noteq> ESP_OK) \<and>
   (fst (mqtt_app_start tr s) \<noteq> None \<longrightarrow> fst (mqtt_app_start tr s) = client_init tr mqtt_cfg0) \<and>
   snd (snd (mqtt_app_start tr s)) = s\<lparr>mqtt_client := client_init tr mqtt_cfg0\<rparr> \<and>
   fst (mqtt_app_start tr s) = fst (mqtt_app_start tr s1)"
  by (auto simp add: mqtt_app_start_def Let_def split: option.splits)

theorem mqtt_app_start_result_witness:
  "fst (mqtt_app_start client_ok system_connected) = Some 2 \<and>
   fst (mqtt_app_start client_ok system_disconnected) = Some 2 \<and>
   snd (snd (mqtt_app_start client_ok system_connected)) = system_connected\<lparr>mqtt_client := Some 2\<rparr>"
  using mqtt_app_start_result [of client_ok system_connected system_disconnected]
  by (auto simp add: client_ok_def ESP_OK_def)

text \<open>
  C8 as claimed fails: called with a connected session, \<open>mqtt_app_start\<close> succeeds,
  and a second client replaces the handle of the first.
\<close>

theorem mqtt_app_start_second_session:
  "mqtt_system_is_connected system_connected \<and>
   mqtt_app_start client_ok system_connected =
     (Some 2, [ClientInit mqtt_cfg0, ClientRegisterEvent 2, ClientStart 2],
      system_connected\<lparr>mqtt_client := Some 2\<rparr>)"
  by (simp add: mqtt_system_is_connected_def system_connected_def client_ok_def
      mqtt_app_start_def ESP_OK_def)

text \<open>
  C9. For every topic that goes on after the prefix \<open>demo/comandos/valvula/\<close>, the
  comparison \<^verbatim>\<open>strncmp(topic_str, "demo/comandos/valvula/", 27)\<close> is not zero, since it
  reaches the terminator of the 22 characters of the literal; the valve branch is not
  taken, and the message goes to the temperature branch or to the unhandled one.
\<close>

theorem valvula_branch_not_taken:
  assumes "c \<noteq> NUL"
    and "length (''demo/comandos/valvula/'' @ c # cs) < 2 ^ 31"
    and "length data < 2 ^ 31"
  shows "\<exists>r. processar_mensagem_mqtt lib junk_t junk_d (''demo/comandos/valvula/'' @ c # cs)
             (word_of_nat (length (''demo/comandos/valvula/'' @ c # cs)))
             data (word_of_nat (length data)) = Inr r \<and>
           strncmp_c (topic_str r) ''demo/comandos/valvula/'' 27 \<noteq> 0 \<and>
           tl (logged r) =
             (if strstr_c (topic_str r) ''temperatura'' \<noteq> None then
                (LOGI, TemperaturaRecebida (atof lib (data_str r))) #
                (if float_gt_35 lib (atof lib (data_str r)) then [(LOGW, TemperaturaAlta)] else [])
              else [(LOGD, TopicoNaoTratado (cstr (topic_str r)))])"
proof -
  define topic where "topic = ''demo/comandos/valvula/'' @ c # cs"
  define t where "t = take 127 topic @ NUL #
      drop (Suc (min (length topic) 127)) (char_array 128 junk_t)"
  define d where "d = take 255 data @ NUL #
      drop (Suc (min (length data) 255)) (char_array 256 junk_d)"
  have tk: "take 127 topic = (''demo/comandos/valvula/'' @ [c]) @ take 104 cs"
    unfolding topic_def by simp
  have "cstr t = cstr ((''demo/comandos/valvula/'' @ [c]) @ take 104 cs)"
    unfolding t_def tk by (rule cstr_append_NUL)
  also have "\<dots> = (''demo/comandos/valvula/'' @ [c]) @ cstr (take 104 cs)"
    using assms(1) by (intro cstr_append) (auto simp add: NUL_def)
  finally have ct: "cstr t = ''demo/comandos/valvula/'' @ c # cstr (take 104 cs)"
    by simp
  have nb: "cstr t \<noteq> ''demo/comandos/bomba''"
    unfolding ct by simp
  have nv: "strncmp_c t ''demo/comandos/valvula/'' 27 \<noteq> 0"
    unfolding strncmp_valvula_iff ct by simp
  have p: "processar_topico lib t d =
           (if strstr_c t ''temperatura'' \<noteq> None then
              (LOGI, TemperaturaRecebida (atof lib d)) #
              (if float_gt_35 lib (atof lib d) then [(LOGW, TemperaturaAlta)] else [])
            else [(LOGD, TopicoNaoTratado (cstr t))])"
    using nv by (simp add: processar_topico_not_bomba [OF nb])
  have "processar_mensagem_mqtt lib junk_t junk_d topic (word_of_nat (length topic))
          data (word_of_nat (length data)) =
        Inr \<lparr>topic_str = t, data_str = d,
             logged = (LOGI, Processando (cstr (take 127 topic)) (cstr (take 255 data))) #
                      processar_topico lib t d\<rparr>"
    using assms(2,3) unfolding t_def d_def topic_def
    by (rule processar_mensagem_mqtt_Inr)
  then show ?thesis
    using nv p unfolding topic_def by simp
qed

theorem valvula_branch_not_taken_witness:
  "\<exists>r. processar_mensagem_mqtt libc0 [] [] ''demo/comandos/valvula/3'' 23 ''LIGAR'' 5 = Inr r \<and>
        strncmp_c (topic_str r) ''demo/comandos/valvula/'' 27 \<noteq> 0 \<and>
        logged r = [(LOGI, Processando ''demo/comandos/valvula/3'' ''LIGAR''),
                    (LOGD, TopicoNaoTratado ''demo/comandos/valvula/3'')]"
proof -
  have n: "CHR ''3'' \<noteq> NUL" by (simp add: NUL_def)
  obtain r where r: "processar_mensagem_mqtt libc0 [] [] ''demo/comandos/valvula/3'' 23 ''LIGAR'' 5 = Inr r"
    and v: "strncmp_c (topic_str r) ''demo/comandos/valvula/'' 27 \<noteq> 0"
    and l: "tl (logged r) =
             (if strstr_c (topic_str r) ''temperatura'' \<noteq> None then
                (LOGI, TemperaturaRecebida (atof libc0 (data_str r))) #
                (if float_gt_35 libc0 (atof libc0 (data_str r)) then [(LOGW, TemperaturaAlta)] else [])
              else [(LOGD, TopicoNaoTratado (cstr (topic_str r)))])"
    using valvula_branch_not_taken [of "CHR ''3''" "[]" "''LIGAR''" libc0 "[]" "[]", OF n]
    by auto
  have e: "processar_mensagem_mqtt libc0 [] [] ''demo/comandos/valvula/3'' 23 ''LIGAR'' 5 =
        Inr \<lparr>topic_str = take 127 ''demo/comandos/valvula/3'' @ NUL #
                  drop (Suc (min (length ''demo/comandos/valvula/3'') 127)) (char_array 128 []),
              data_str = take 255 ''LIGAR'' @ NUL #
                  drop (Suc (min (length ''LIGAR'') 255)) (char_array 256 []),
              logged = (LOGI, Processando (cstr (take 127 ''demo/comandos/valvula/3'')) (cstr (take 255 ''LIGAR''))) #
                  processar_topico libc0
                    (take 127 ''demo/comandos/valvula/3'' @ NUL #
                       drop (Suc (min (length ''demo/comandos/valvula/3'') 127)) (char_array 128 []))
                    (take 255 ''LIGAR'' @ NUL #
                       drop (Suc (min (length ''LIGAR'') 255)) (char_array 256 []))\<rparr>"
    using processar_mensagem_mqtt_Inr [of "''demo/comandos/valvula/3''" "''LIGAR''" libc0 "[]" "[]"]
    by simp
  have c: "cstr (topic_str r) = ''demo/comandos/valvula/3''"
    using r unfolding e by (auto simp add: cstr_Cons NUL_def)
  have s: "strstr_c (topic_str r) ''temperatura'' = None"
    by (subst strstr_c_cstr) (simp add: c NUL_def)
  have h: "logged r = (LOGI, Processando ''demo/comandos/valvula/3'' ''LIGAR'') # tl (logged r)"
    using r unfolding e by (auto simp add: cstr_Cons NUL_def cstr_Nil)
  have "logged r = [(LOGI, Processando ''demo/comandos/valvula/3'' ''LIGAR''),
        (LOGD, TopicoNaoTratado ''demo/comandos/valvula/3'')]"
    by (subst h) (simp add: l s c)
  then show ?thesis using r v by simp
qed

text \<open>
  C10. With a handle, \<open>mqtt_publish_data\<close> called with length 0 on a text passes the
  whole text with the length \<^verbatim>\<open>strlen(data)\<close> to the client, and called with any other
  length it passes that length unchanged.
\<close>

theorem mqtt_publish_data_length:
  assumes "mqtt_client s = Some c" and "strlen_c data < 2 ^ 31"
  shows "fst (snd (mqtt_publish_data tr s topic data len qos retain)) =
           [ClientPublish \<lparr>pc_client = c, pc_topic = topic, pc_data = data,
              pc_len = (if len = 0 then int (strlen_c data) else len),
              pc_qos = qos, pc_retain = (if retain then 1 else 0)\<rparr>] \<and>
         (len = 0 \<longrightarrow> take (strlen_c data) data = cstr data)"
proof -
  have "sint (word_of_nat (strlen_c data) :: 32 word) = int (unat (word_of_nat (strlen_c data) :: 32 word))"
    using assms(2) by (intro sint_small) (simp add: unat_of_nat)
  also have "\<dots> = int (strlen_c data)"
    using assms(2) by (simp add: unat_of_nat)
  finally have i: "int_of_size_t (strlen_c data) = int (strlen_c data)"
    unfolding int_of_size_t_def .
  have t: "take (strlen_c data) data = cstr data"
    unfolding strlen_c_def cstr_def by (induction data) simp_all
  show ?thesis
    using assms(1) i t by (simp add: mqtt_publish_data_def Let_def)
qed

theorem mqtt_publish_data_length_witness:
  "fst (snd (mqtt_publish_data client_ok system_connected ''t'' ''ONLINE'' 0 1 True)) =
     [ClientPublish \<lparr>pc_client = 1, pc_topic = ''t'', pc_data = ''ONLINE'',
        pc_len = 6, pc_qos = 1, pc_retain = 1\<rparr>] \<and>
   fst (snd (mqtt_publish_data client_ok system_connected ''t'' ''ONLINE'' 3 1 True)) =
     [ClientPublish \<lparr>pc_client = 1, pc_topic = ''t'', pc_data = ''ONLINE'',
        pc_len = 3, pc_qos = 1, pc_retain = 1\<rparr>]"
proof -
  have c: "mqtt_client system_connected = Some 1"
    by (simp add: system_connected_def)
  have l: "strlen_c ''ONLINE'' < 2 ^ 31"
    by (simp add: strlen_c_def cstr_def NUL_def)
  show ?thesis
    using mqtt_publish_data_length [OF c l, of client_ok "''t''" 0 1 True]
      mqtt_publish_data_length [OF c l, of client_ok "''t''" 3 1 True]
    by (simp add: strlen_c_def cstr_def NUL_def)
qed

end
